theory Spec2Isabelle
  imports Complex_Main
begin

section \<open>Worklet processors of Tone.js\<close>

text \<open>
  JavaScript numbers are modelled as \<^typ>\<open>real\<close>: \<open>Math.floor\<close> is \<^const>\<open>floor\<close>,
  \<open>Math.pow\<close> with a positive base is \<^const>\<open>powr\<close>. Rounding of IEEE doubles, NaN and
  infinities are outside the model.
\<close>

subsection \<open>ToneAudioWorkletProcessor\<close>

text \<open>
  The base class keeps three fields. Subclasses add their own fields by record extension.
\<close>

record ToneAudioWorkletProcessor =
  disposed :: bool
  blockSize :: nat
  sampleRate :: real

text \<open>
  The options object handed to a processor constructor. Only \<open>channelCount\<close> is read by
  the code (\<open>options.channelCount || 2\<close>); it may be missing.
\<close>

record worklet_options =
  channelCount :: "nat option"

text \<open>
  The constructor: \<open>disposed = false\<close>, \<open>blockSize = 256\<close>, \<open>sampleRate = 44100\<close>.
  The options are not consulted for any of the three.
\<close>

definition ToneAudioWorkletProcessor_new :: "worklet_options \<Rightarrow> ToneAudioWorkletProcessor" where
  "ToneAudioWorkletProcessor_new options =
     \<lparr>disposed = False, blockSize = 256, sampleRate = 44100\<rparr>"

text \<open>
  The handler installed on \<open>port.onmessage\<close>: the message data \<open>"dispose"\<close> sets the
  flag, any other data leaves the processor as it is.
\<close>

definition onmessage ::
  "'a ToneAudioWorkletProcessor_scheme \<Rightarrow> string \<Rightarrow> 'a ToneAudioWorkletProcessor_scheme" where
  "onmessage this data = (if data = ''dispose'' then this\<lparr>disposed := True\<rparr> else this)"

subsection \<open>BitCrusherProcessor\<close>

text \<open>
  The bit crusher declares no constructor and no field of its own: an instance is a
  \<^typ>\<open>ToneAudioWorkletProcessor\<close>. SingleIOProcessor, the class between the two, is
  not among the sources; its constructor is taken to pass the options on to the base
  constructor.
\<close>

type_synonym BitCrusherProcessor = ToneAudioWorkletProcessor

definition BitCrusherProcessor_new :: "worklet_options \<Rightarrow> BitCrusherProcessor" where
  "BitCrusherProcessor_new options = ToneAudioWorkletProcessor_new options"

record parameter_descriptor =
  pname :: string
  defaultValue :: real
  minValue :: real
  maxValue :: real
  automationRate :: string

definition BitCrusherProcessor_parameterDescriptors :: "parameter_descriptor list" where
  "BitCrusherProcessor_parameterDescriptors =
     [\<lparr>pname = ''bits'', defaultValue = 12, minValue = 1, maxValue = 16,
       automationRate = ''k-rate''\<rparr>]"

record bitcrusher_parameters =
  bits :: real

text \<open>
  \<open>generate(input, _channel, parameters)\<close>. The method reads no field and writes none;
  the processor is threaded through so that this can be stated.
\<close>

definition BitCrusherProcessor_generate ::
  "BitCrusherProcessor \<Rightarrow> real \<Rightarrow> nat \<Rightarrow> bitcrusher_parameters \<Rightarrow> real \<times> BitCrusherProcessor" where
  "BitCrusherProcessor_generate this input channel parameters =
     (let step = (1/2) powr (bits parameters - 1);
          val = step * of_int \<lfloor>input / step + 1/2\<rfloor>
      in (val, this))"

subsection \<open>DelayLine\<close>

text \<open>
  Modelled from the spec: the DelayLine class (core/worklet/DelayLine) is not among the
  sources; only its uses \<open>new DelayLine(sampleRate, channels)\<close>, \<open>get\<close> and \<open>push\<close> are.
  The spec describes one circular buffer per channel, each of a fixed capacity, with a
  write cursor per channel. A write stores the sample at the cursor and advances the
  cursor by one, wrapping at the capacity. A read at a delay of \<open>d\<close> samples returns the
  sample written \<open>d\<close> steps before the most recent write (delay 0 is the most recent
  write), interpolates linearly between the two nearest whole delays, and clamps a delay
  that the buffer cannot hold to a read at capacity - 1, the largest whole delay. The spec
  requires a non-negative delay; the model reads a negative delay as delay 0. Buffers
  start silent.

  The spec does not say which capacity the constructor gives the buffers, so the
  capacity is a parameter of the constructor here. A channel that has no buffer is
  outside what the spec describes: reading or writing it gives \<open>None\<close>.
\<close>

record channel_line =
  buffer :: "real list"
  cursor :: nat

record DelayLine =
  capacity :: nat
  dl_sampleRate :: real
  lines :: "channel_line list"

definition DelayLine_new :: "nat \<Rightarrow> real \<Rightarrow> nat \<Rightarrow> DelayLine" where
  "DelayLine_new cap rate channels =
     \<lparr>capacity = cap, dl_sampleRate = rate,
      lines = replicate channels \<lparr>buffer = replicate cap 0, cursor = 0\<rparr>\<rparr>"

definition line_write :: "nat \<Rightarrow> channel_line \<Rightarrow> real \<Rightarrow> channel_line" where
  "line_write cap l sample =
     \<lparr>buffer = (buffer l)[cursor l := sample], cursor = (cursor l + 1) mod cap\<rparr>"

text \<open>The sample at a whole delay \<open>k \<le> cap - 1\<close>: \<open>k\<close> slots behind the last one written.\<close>

definition tap :: "nat \<Rightarrow> channel_line \<Rightarrow> nat \<Rightarrow> real" where
  "tap cap l k = buffer l ! ((cursor l + cap - 1 - k) mod cap)"

definition line_read :: "nat \<Rightarrow> channel_line \<Rightarrow> real \<Rightarrow> real" where
  "line_read cap l delaySamples =
     (let d = min (max delaySamples 0) (real (cap - 1));
          k = nat \<lfloor>d\<rfloor>;
          frac = d - real k;
          a = tap cap l k;
          b = tap cap l (min (k + 1) (cap - 1))
      in a + frac * (b - a))"

definition DelayLine_push :: "DelayLine \<Rightarrow> nat \<Rightarrow> real \<Rightarrow> DelayLine option" where
  "DelayLine_push dl channel sample =
     (if channel < length (lines dl)
      then Some (dl\<lparr>lines := (lines dl)[channel := line_write (capacity dl) (lines dl ! channel) sample]\<rparr>)
      else None)"

definition DelayLine_get :: "DelayLine \<Rightarrow> nat \<Rightarrow> real \<Rightarrow> real option" where
  "DelayLine_get dl channel delaySamples =
     (if channel < length (lines dl)
      then Some (line_read (capacity dl) (lines dl ! channel) delaySamples)
      else None)"

subsection \<open>FeedbackCombFilterProcessor\<close>

record FeedbackCombFilterProcessor = ToneAudioWorkletProcessor +
  delayLine :: DelayLine

text \<open>
  The constructor: \<open>super(options)\<close>, then
  \<open>this.delayLine = new DelayLine(this.sampleRate, options.channelCount || 2)\<close>.
  A missing or zero \<open>channelCount\<close> is falsy and gives 2. The first argument \<open>cap\<close> is
  the capacity that the DelayLine constructor allots (see above).
\<close>

definition FeedbackCombFilterProcessor_new ::
  "nat \<Rightarrow> worklet_options \<Rightarrow> FeedbackCombFilterProcessor" where
  "FeedbackCombFilterProcessor_new cap options =
     (let base = ToneAudioWorkletProcessor_new options
      in \<lparr>disposed = disposed base, blockSize = blockSize base, sampleRate = sampleRate base,
          delayLine = DelayLine_new cap (sampleRate base)
            (case channelCount options of None \<Rightarrow> 2 | Some n \<Rightarrow> if n = 0 then 2 else n)\<rparr>)"

definition FeedbackCombFilterProcessor_parameterDescriptors :: "parameter_descriptor list" where
  "FeedbackCombFilterProcessor_parameterDescriptors =
     [\<lparr>pname = ''delayTime'', defaultValue = 1/10, minValue = 0, maxValue = 1,
       automationRate = ''k-rate''\<rparr>,
      \<lparr>pname = ''feedback'', defaultValue = 1/2, minValue = 0, maxValue = 9999/10000,
       automationRate = ''k-rate''\<rparr>]"

record comb_parameters =
  delayTime :: real
  feedback :: real

text \<open>
  \<open>generate(input, channel, parameters)\<close>: read the delayed sample, push the input plus
  the fed-back delayed sample, return the delayed sample.
\<close>

definition FeedbackCombFilterProcessor_generate ::
  "FeedbackCombFilterProcessor \<Rightarrow> real \<Rightarrow> nat \<Rightarrow> comb_parameters
     \<Rightarrow> (real \<times> FeedbackCombFilterProcessor) option" where
  "FeedbackCombFilterProcessor_generate this input channel parameters =
     (case DelayLine_get (delayLine this) channel (delayTime parameters * sampleRate this) of
        None \<Rightarrow> None
      | Some delayedSample \<Rightarrow>
          (case DelayLine_push (delayLine this) channel
                  (input + delayedSample * feedback parameters) of
             None \<Rightarrow> None
           | Some dl \<Rightarrow> Some (delayedSample, this\<lparr>delayLine := dl\<rparr>)))"

subsection \<open>The block loop\<close>

text \<open>
  Modelled from the spec: SingleIOProcessor, the class that owns \<open>process\<close>, is not among
  the sources. The spec's processing contract: for every channel and every sample index of
  the block, in increasing order, call \<open>generate\<close> with the input sample, the channel and
  the block's parameter values (all parameters here are k-rate, one value per block) and
  write the result at the same channel and index; a disposed node runs no \<open>generate\<close> and
  its block is silence.
\<close>

fun generate_samples ::
  "('s \<Rightarrow> real \<Rightarrow> nat \<Rightarrow> 'p \<Rightarrow> (real \<times> 's) option) \<Rightarrow> 's \<Rightarrow> nat \<Rightarrow> 'p \<Rightarrow> real list
     \<Rightarrow> (real list \<times> 's) option" where
  "generate_samples gen this channel parameters [] = Some ([], this)"
| "generate_samples gen this channel parameters (x # xs) =
     (case gen this x channel parameters of
        None \<Rightarrow> None
      | Some (y, this') \<Rightarrow>
          (case generate_samples gen this' channel parameters xs of
             None \<Rightarrow> None
           | Some (ys, this'') \<Rightarrow> Some (y # ys, this'')))"

fun generate_channels ::
  "('s \<Rightarrow> real \<Rightarrow> nat \<Rightarrow> 'p \<Rightarrow> (real \<times> 's) option) \<Rightarrow> 's \<Rightarrow> nat \<Rightarrow> 'p \<Rightarrow> real list list
     \<Rightarrow> (real list list \<times> 's) option" where
  "generate_channels gen this channel parameters [] = Some ([], this)"
| "generate_channels gen this channel parameters (xs # rest) =
     (case generate_samples gen this channel parameters xs of
        None \<Rightarrow> None
      | Some (ys, this') \<Rightarrow>
          (case generate_channels gen this' (Suc channel) parameters rest of
             None \<Rightarrow> None
           | Some (yss, this'') \<Rightarrow> Some (ys # yss, this'')))"

definition silence :: "real list list \<Rightarrow> real list list" where
  "silence inputs = map (map (\<lambda>x. 0)) inputs"

definition process ::
  "('a ToneAudioWorkletProcessor_scheme \<Rightarrow> real \<Rightarrow> nat \<Rightarrow> 'p
      \<Rightarrow> (real \<times> 'a ToneAudioWorkletProcessor_scheme) option)
     \<Rightarrow> 'a ToneAudioWorkletProcessor_scheme \<Rightarrow> real list list \<Rightarrow> 'p
     \<Rightarrow> (real list list \<times> 'a ToneAudioWorkletProcessor_scheme) option" where
  "process gen this inputs parameters =
     (if disposed this then Some (silence inputs, this)
      else generate_channels gen this 0 parameters inputs)"

text \<open>
  What reaches a node over its life: messages on its port and block requests from the
  host. A run collects the output block of every block request.
\<close>

datatype 'p event = Message string | Block "real list list" 'p

fun run_events ::
  "('a ToneAudioWorkletProcessor_scheme \<Rightarrow> real \<Rightarrow> nat \<Rightarrow> 'p
      \<Rightarrow> (real \<times> 'a ToneAudioWorkletProcessor_scheme) option)
     \<Rightarrow> 'a ToneAudioWorkletProcessor_scheme \<Rightarrow> 'p event list
     \<Rightarrow> (real list list list \<times> 'a ToneAudioWorkletProcessor_scheme) option" where
  "run_events gen this [] = Some ([], this)"
| "run_events gen this (Message data # evs) = run_events gen (onmessage this data) evs"
| "run_events gen this (Block inputs parameters # evs) =
     (case process gen this inputs parameters of
        None \<Rightarrow> None
      | Some (out, this') \<Rightarrow>
          (case run_events gen this' evs of
             None \<Rightarrow> None
           | Some (outs, this'') \<Rightarrow> Some (out # outs, this'')))"


subsection \<open>Well-formed and bounded delay lines\<close>

text \<open>
  Predicates used to state the claims: a line is well formed when its buffer has the
  capacity's length and its cursor lies inside it; a delay line is bounded by \<open>M\<close> when
  every stored sample is; a block request fits a node with \<open>n\<close> channels when it has
  at most \<open>n\<close> channels, its feedback parameter is \<open>fb\<close> and its samples are bounded by
  \<open>B\<close>.
\<close>

definition wf_line :: "nat \<Rightarrow> channel_line \<Rightarrow> bool" where
  "wf_line cap l = (length (buffer l) = cap \<and> cursor l < cap)"

definition wf_delay :: "DelayLine \<Rightarrow> bool" where
  "wf_delay dl = list_all (wf_line (capacity dl)) (lines dl)"

definition stored_bounded :: "real \<Rightarrow> DelayLine \<Rightarrow> bool" where
  "stored_bounded M dl = list_all (\<lambda>l. list_all (\<lambda>v. \<bar>v\<bar> \<le> M) (buffer l)) (lines dl)"

definition numChannels :: "FeedbackCombFilterProcessor \<Rightarrow> nat" where
  "numChannels this = length (lines (delayLine this))"

definition block_ok :: "real \<Rightarrow> real \<Rightarrow> nat \<Rightarrow> comb_parameters event \<Rightarrow> bool" where
  "block_ok B fb n ev =
     (case ev of
        Message data \<Rightarrow> True
      | Block inputs parameters \<Rightarrow>
          length inputs \<le> n \<and> feedback parameters = fb \<and>
          list_all (list_all (\<lambda>x. \<bar>x\<bar> \<le> B)) inputs)"

definition comb_inv :: "real \<Rightarrow> nat \<Rightarrow> FeedbackCombFilterProcessor \<Rightarrow> bool" where
  "comb_inv M n this =
     (wf_delay (delayLine this) \<and> stored_bounded M (delayLine this) \<and> numChannels this = n)"

subsection \<open>Method calls on a processor\<close>



text \<open>The output of a run of events in which every block is answered with silence.\<close>

fun silent_outputs :: "'p event list \<Rightarrow> real list list list" where
  "silent_outputs [] = []"
| "silent_outputs (Message data # evs) = silent_outputs evs"
| "silent_outputs (Block inputs parameters # evs) = silence inputs # silent_outputs evs"

subsection \<open>The response to a unit impulse\<close>

text \<open>
  Used to state and prove the impulse response of the comb filter at a delay of 441
  samples and feedback one half: \<open>impulse\<close> is the input, \<open>echo_written m\<close> the sample
  pushed at step \<open>m\<close>, \<open>comb_echo n\<close> the output at step \<open>n\<close>; \<open>echo_inv\<close> says that
  after \<open>n\<close> steps the line holds the last pushed samples, most recent first.
\<close>

definition echo_written :: "nat \<Rightarrow> real" where
  "echo_written m = (if m mod 442 = 0 then (1/2) ^ (m div 442) else 0)"

definition comb_echo :: "nat \<Rightarrow> real" where
  "comb_echo n = (if 442 \<le> n then echo_written (n - 442) else 0)"

definition impulse :: "nat \<Rightarrow> real" where
  "impulse n = (if n = 0 then 1 else 0)"

definition echo_inv :: "nat \<Rightarrow> nat \<Rightarrow> channel_line \<Rightarrow> bool" where
  "echo_inv cap n l =
     (wf_line cap l \<and> (\<forall>k<cap. tap cap l k = (if k < n then echo_written (n - 1 - k) else 0)))"

definition impulse_state :: "nat \<Rightarrow> nat \<Rightarrow> FeedbackCombFilterProcessor \<Rightarrow> bool" where
  "impulse_state cap n this =
     (sampleRate this = 44100 \<and> capacity (delayLine this) = cap
      \<and> 0 < length (lines (delayLine this)) \<and> echo_inv cap n (lines (delayLine this) ! 0))"

subsection \<open>Freeverb and Freeverb1\<close>

text \<open>
  The two effects build a graph of audio nodes. The classes of the nodes
  (LowpassCombFilter, Signal, the effect base classes) are not among the sources; what the
  constructors do with them is recorded here: the fields they assign and, in call order,
  the wiring calls they make. The options are those resolved by \<open>optionsFromArguments\<close>.
\<close>

definition combFilterTunings :: "real list" where
  "combFilterTunings =
     [1557 / 44100, 1617 / 44100, 1491 / 44100, 1422 / 44100,
      1277 / 44100, 1356 / 44100, 1188 / 44100, 1116 / 44100]"

definition allpassFilterFrequencies :: "real list" where
  "allpassFilterFrequencies = [225, 556, 441, 341]"

record FreeverbOptions =
  opt_dampening :: real
  opt_roomSize :: real
  opt_wetGain :: real

record LowpassCombFilter =
  lcf_delayTime :: real
  lcf_dampening :: real

record BiquadFilterNode =
  bq_type :: string
  bq_frequency :: real

text \<open>
  The nodes a wiring call names: the two shared signals, comb filter \<open>i\<close> of
  \<open>_combFilters\<close>, its \<open>resonance\<close> and the gain of its input, the allpass filters by
  position, and the send and return of a feedback effect.
\<close>

datatype node =
  RoomSize | WetGain | CombFilter nat | Resonance nat | InputGain nat
  | AllpassL nat | AllpassR nat | Allpass nat | EffectSend | EffectReturn

datatype wiring =
  Connect node node
  | ConnectEffectLeft "node list"
  | ConnectEffectRight "node list"
  | Chain node "node list"
  | InternalChannelsPush "node list"

record Freeverb =
  fv_roomSize :: real
  fv_wetGain :: real
  fv_allpassFiltersL :: "BiquadFilterNode list"
  fv_allpassFiltersR :: "BiquadFilterNode list"
  fv_combFilters :: "LowpassCombFilter list"
  fv_wiring :: "wiring list"

definition make_allpass :: "real \<Rightarrow> BiquadFilterNode" where
  "make_allpass freq = \<lparr>bq_type = ''allpass'', bq_frequency = freq\<rparr>"

text \<open>
  The body of \<open>combFilterTunings.map((delayTime, index) => ...)\<close> in Freeverb; the
  entry pairs the index with the tuning that the source calls \<open>delayTime\<close>.
\<close>

definition Freeverb_comb :: "FreeverbOptions \<Rightarrow> nat \<times> real \<Rightarrow> LowpassCombFilter \<times> wiring list" where
  "Freeverb_comb options entry =
     (case entry of (index, tuning) \<Rightarrow>
        (\<lparr>lcf_delayTime = tuning, lcf_dampening = opt_dampening options\<rparr>,
         [if real index < real (length combFilterTunings) / 2
          then ConnectEffectLeft
                 (CombFilter index # map AllpassL [0..<length allpassFilterFrequencies])
          else ConnectEffectRight
                 (CombFilter index # map AllpassR [0..<length allpassFilterFrequencies]),
          Connect WetGain (InputGain index),
          Connect RoomSize (Resonance index)]))"

definition Freeverb_new :: "FreeverbOptions \<Rightarrow> Freeverb" where
  "Freeverb_new options =
     (let made = map (Freeverb_comb options) (enumerate 0 combFilterTunings)
      in \<lparr>fv_roomSize = opt_roomSize options,
          fv_wetGain = opt_wetGain options,
          fv_allpassFiltersL = map make_allpass allpassFilterFrequencies,
          fv_allpassFiltersR = map make_allpass allpassFilterFrequencies,
          fv_combFilters = map fst made,
          fv_wiring = concat (map snd made)\<rparr>)"

text \<open>The \<open>dampening\<close> accessors: the getter reads comb filter 0, the setter assigns all.\<close>

definition Freeverb_get_dampening :: "Freeverb \<Rightarrow> real option" where
  "Freeverb_get_dampening this =
     (case fv_combFilters this of [] \<Rightarrow> None | c # cs \<Rightarrow> Some (lcf_dampening c))"

definition Freeverb_set_dampening :: "Freeverb \<Rightarrow> real \<Rightarrow> Freeverb" where
  "Freeverb_set_dampening this d =
     this\<lparr>fv_combFilters := map (\<lambda>c. c\<lparr>lcf_dampening := d\<rparr>) (fv_combFilters this)\<rparr>"

record Freeverb1 =
  fv1_roomSize :: real
  fv1_wetGain :: real
  fv1_allpassFilters :: "BiquadFilterNode list"
  fv1_combFilters :: "LowpassCombFilter list"
  fv1_wiring :: "wiring list"

text \<open>The body of the same \<open>map\<close> in Freeverb1.\<close>

definition Freeverb1_comb :: "FreeverbOptions \<Rightarrow> nat \<times> real \<Rightarrow> LowpassCombFilter \<times> wiring list" where
  "Freeverb1_comb options entry =
     (case entry of (index, tuning) \<Rightarrow>
        (\<lparr>lcf_delayTime = tuning, lcf_dampening = opt_dampening options\<rparr>,
         [InternalChannelsPush
            (CombFilter index # map Allpass [0..<length allpassFilterFrequencies]),
          Chain EffectSend
            (CombFilter index # map Allpass [0..<length allpassFilterFrequencies] @ [EffectReturn]),
          Connect WetGain (InputGain index),
          Connect RoomSize (Resonance index)]))"

definition Freeverb1_new :: "FreeverbOptions \<Rightarrow> Freeverb1" where
  "Freeverb1_new options =
     (let made = map (Freeverb1_comb options) (enumerate 0 combFilterTunings)
      in \<lparr>fv1_roomSize = opt_roomSize options,
          fv1_wetGain = opt_wetGain options,
          fv1_allpassFilters = map make_allpass allpassFilterFrequencies,
          fv1_combFilters = map fst made,
          fv1_wiring = concat (map snd made)\<rparr>)"

definition Freeverb1_get_dampening :: "Freeverb1 \<Rightarrow> real option" where
  "Freeverb1_get_dampening this =
     (case fv1_combFilters this of [] \<Rightarrow> None | c # cs \<Rightarrow> Some (lcf_dampening c))"

definition Freeverb1_set_dampening :: "Freeverb1 \<Rightarrow> real \<Rightarrow> Freeverb1" where
  "Freeverb1_set_dampening this d =
     this\<lparr>fv1_combFilters := map (\<lambda>c. c\<lparr>lcf_dampening := d\<rparr>) (fv1_combFilters this)\<rparr>"

text \<open>The comb filters whose resonance the \<open>roomSize\<close> signal is connected to, in call order.\<close>

fun roomSize_targets :: "wiring list \<Rightarrow> nat list" where
  "roomSize_targets [] = []"
| "roomSize_targets (Connect RoomSize (Resonance i) # ws) = i # roomSize_targets ws"
| "roomSize_targets (w # ws) = roomSize_targets ws"

section \<open>Facts and claims\<close>

subsection \<open>Facts about the quantiser\<close>

lemma half_as_powr: "(1/2 :: real) = 2 powr (-1)"
  by (simp add: powr_minus_divide)

lemma half_powr_eq: "(1/2 :: real) powr y = 2 powr (- y)"
proof -
  have "(1/2 :: real) powr y = (2 powr (-1)) powr y"
    by (simp only: half_as_powr [symmetric])
  also have "\<dots> = 2 powr (-1 * y)"
    by (rule powr_powr)
  also have "\<dots> = 2 powr (- y)"
    by simp
  finally show ?thesis .
qed

lemma step_pos: "0 < (1/2 :: real) powr y"
  by simp

lemma floor_int_plus_half: "\<lfloor>of_int k + (1/2 :: real)\<rfloor> = k"
  by linarith

text \<open>Rounding half up picks a nearest integer: no integer is closer.\<close>

lemma round_half_up_nearest:
  fixes t :: real
  shows "\<bar>of_int \<lfloor>t + 1/2\<rfloor> - t\<bar> \<le> \<bar>of_int j - t\<bar>"
proof (cases "j = \<lfloor>t + 1/2\<rfloor>")
  case True
  then show ?thesis by simp
next
  case False
  have near: "\<bar>of_int \<lfloor>t + 1/2\<rfloor> - t\<bar> \<le> 1/2"
    by linarith
  from False have "j \<le> \<lfloor>t + 1/2\<rfloor> - 1 \<or> \<lfloor>t + 1/2\<rfloor> + 1 \<le> j"
    by linarith
  then have "(of_int j :: real) \<le> of_int \<lfloor>t + 1/2\<rfloor> - 1 \<or> of_int \<lfloor>t + 1/2\<rfloor> + 1 \<le> (of_int j :: real)"
    by (metis of_int_le_iff of_int_diff of_int_add of_int_1)
  then have "1/2 \<le> \<bar>of_int j - t\<bar>"
    using near by linarith
  with near show ?thesis by linarith
qed

text \<open>Scaled to a grid of positive step \<open>s\<close>: no grid point is closer than the rounded one.\<close>

lemma quantise_nearest:
  fixes x s :: real
  assumes "0 < s"
  shows "\<bar>s * of_int \<lfloor>x / s + 1/2\<rfloor> - x\<bar> \<le> \<bar>s * of_int j - x\<bar>"
proof -
  have a: "s * of_int \<lfloor>x / s + 1/2\<rfloor> - x = s * (of_int \<lfloor>x / s + 1/2\<rfloor> - x / s)"
    using assms by (simp add: algebra_simps)
  have b: "s * of_int j - x = s * (of_int j - x / s)"
    using assms by (simp add: algebra_simps)
  have "\<bar>of_int \<lfloor>x / s + 1/2\<rfloor> - x / s\<bar> \<le> \<bar>of_int j - x / s\<bar>"
    by (rule round_half_up_nearest)
  then have "s * \<bar>of_int \<lfloor>x / s + 1/2\<rfloor> - x / s\<bar> \<le> s * \<bar>of_int j - x / s\<bar>"
    using assms by (simp add: mult_left_mono)
  then show ?thesis
    using assms by (simp add: a b abs_mult)
qed

text \<open>For whole bit counts the coarser step is a power-of-two multiple of the finer one.\<close>

lemma step_multiple:
  fixes b1 b2 :: int
  assumes "b1 < b2"
  shows "(1/2 :: real) powr (of_int b1 - 1) = (1/2) powr (of_int b2 - 1) * of_int (2 ^ nat (b2 - b1))"
proof -
  have "(1/2 :: real) powr (of_int b1 - 1) = (1/2) powr ((of_int b2 - 1) + (- real (nat (b2 - b1))))"
    using assms by simp
  also have "\<dots> = (1/2) powr (of_int b2 - 1) * (1/2) powr (- real (nat (b2 - b1)))"
    by (rule powr_add)
  also have "(1/2 :: real) powr (- real (nat (b2 - b1))) = 2 powr (real (nat (b2 - b1)))"
    by (simp add: half_powr_eq)
  also have "\<dots> = 2 ^ nat (b2 - b1)"
    by (simp add: powr_realpow)
  finally show ?thesis by simp
qed

section \<open>Claims about the bit crusher\<close>

text \<open>
  C4. For every input sample and every value of \<open>bits\<close>, the bit crusher's generate
  returns \<open>step * floor (x / step + 0.5)\<close> with \<open>step = 2^-(bits - 1)\<close>, it leaves the
  processor untouched and its result does not depend on the processor or the channel
  (no state is carried between samples); with \<open>bits = 1\<close> the input 0.3 gives 0 and the
  input 0.6 gives 1.
\<close>

theorem bitcrusher_generate_quantises:
  "BitCrusherProcessor_generate this x channel \<lparr>bits = b\<rparr> =
     (2 powr (- (b - 1)) * of_int \<lfloor>x / 2 powr (- (b - 1)) + 1/2\<rfloor>, this)
   \<and> fst (BitCrusherProcessor_generate this x channel \<lparr>bits = b\<rparr>) =
     fst (BitCrusherProcessor_generate this' x channel' \<lparr>bits = b\<rparr>)
   \<and> fst (BitCrusherProcessor_generate this (3/10) channel \<lparr>bits = 1\<rparr>) = 0
   \<and> fst (BitCrusherProcessor_generate this (6/10) channel \<lparr>bits = 1\<rparr>) = 1"
proof -
  have "\<lfloor>(4/5 :: real)\<rfloor> = 0" by linarith
  moreover have "\<lfloor>(11/10 :: real)\<rfloor> = 1" by linarith
  ultimately show ?thesis
    by (simp add: BitCrusherProcessor_generate_def Let_def half_powr_eq)
qed

text \<open>
  C6. For every input sample and every fixed value of \<open>bits\<close>, applying the bit crusher's
  generate to its own output gives that output again: the quantisation is a projection.
\<close>

theorem bitcrusher_generate_idempotent:
  "fst (BitCrusherProcessor_generate this
          (fst (BitCrusherProcessor_generate this x channel parameters)) channel parameters) =
   fst (BitCrusherProcessor_generate this x channel parameters)"
proof -
  define s :: real where "s = (1/2) powr (bits parameters - 1)"
  define k where "k = \<lfloor>x / s + 1/2\<rfloor>"
  have "0 < s" by (simp add: s_def)
  then have "s * of_int k / s = of_int k" by simp
  then have "\<lfloor>s * of_int k / s + 1/2\<rfloor> = k"
    by (simp add: floor_int_plus_half)
  then show ?thesis
    by (simp add: BitCrusherProcessor_generate_def Let_def s_def [symmetric] k_def [symmetric])
qed

text \<open>
  C7, for whole bit counts. For every input sample and every pair of whole bit counts
  \<open>b1 < b2\<close> from 1 to 16, the quantisation error at \<open>b2\<close> is no larger than at \<open>b1\<close>,
  the arithmetic of generate taken exactly. The \<open>bits\<close> parameter itself is a real
  number that nothing rounds; for fractional values the statement fails, as shown below.
\<close>

theorem bitcrusher_error_monotone:
  fixes b1 b2 :: int
  assumes "1 \<le> b1" and "b1 < b2" and "b2 \<le> 16"
  shows "\<bar>fst (BitCrusherProcessor_generate this x channel \<lparr>bits = of_int b2\<rparr>) - x\<bar>
       \<le> \<bar>fst (BitCrusherProcessor_generate this x channel \<lparr>bits = of_int b1\<rparr>) - x\<bar>"
proof -
  define s2 :: real where "s2 = (1/2) powr (of_int b2 - 1)"
  define s1 :: real where "s1 = (1/2) powr (of_int b1 - 1)"
  define j where "j = 2 ^ nat (b2 - b1) * \<lfloor>x / s1 + 1/2\<rfloor>"
  have pos: "0 < s2" by (simp add: s2_def)
  have "s1 = s2 * of_int (2 ^ nat (b2 - b1))"
    unfolding s1_def s2_def using assms(2) by (rule step_multiple)
  then have coarse: "s1 * of_int \<lfloor>x / s1 + 1/2\<rfloor> = s2 * of_int j"
    by (simp add: j_def)
  have "\<bar>s2 * of_int \<lfloor>x / s2 + 1/2\<rfloor> - x\<bar> \<le> \<bar>s2 * of_int j - x\<bar>"
    using pos by (rule quantise_nearest)
  then have "\<bar>s2 * of_int \<lfloor>x / s2 + 1/2\<rfloor> - x\<bar> \<le> \<bar>s1 * of_int \<lfloor>x / s1 + 1/2\<rfloor> - x\<bar>"
    by (simp only: coarse)
  then show ?thesis
    by (simp add: BitCrusherProcessor_generate_def Let_def s1_def s2_def)
qed

theorem bitcrusher_error_monotone_witness:
  "(1::int) \<le> 1 \<and> (1::int) < 2 \<and> (2::int) \<le> 16
   \<and> \<bar>fst (BitCrusherProcessor_generate (BitCrusherProcessor_new \<lparr>channelCount = None\<rparr>) (3/10) 0
            \<lparr>bits = of_int 2\<rparr>) - 3/10\<bar>
     \<le> \<bar>fst (BitCrusherProcessor_generate (BitCrusherProcessor_new \<lparr>channelCount = None\<rparr>) (3/10) 0
            \<lparr>bits = of_int 1\<rparr>) - 3/10\<bar>"
  using bitcrusher_error_monotone [of 1 2 "BitCrusherProcessor_new \<lparr>channelCount = None\<rparr>" "3/10" 0]
  by simp

text \<open>
  For a fractional value of \<open>bits\<close> the two grids are not nested. At input 1 the error
  is 0 with 1 bit and positive with 1.5 bits.
\<close>

lemma sqrt_half_bounds: "2/3 < sqrt (1/2 :: real)" "sqrt (1/2 :: real) < 1"
proof -
  have "sqrt ((2/3)\<^sup>2 :: real) < sqrt (1/2)"
    by (subst real_sqrt_less_iff) (simp add: power2_eq_square)
  then show "2/3 < sqrt (1/2 :: real)" by simp
  have "sqrt (1/2 :: real) < sqrt 1"
    by (subst real_sqrt_less_iff) simp
  then show "sqrt (1/2 :: real) < 1" by simp
qed

lemma fractional_bits_not_monotone:
  "\<bar>fst (BitCrusherProcessor_generate this 1 channel \<lparr>bits = 1\<rparr>) - 1\<bar> = 0
   \<and> 0 < \<bar>fst (BitCrusherProcessor_generate this 1 channel \<lparr>bits = 3/2\<rparr>) - 1\<bar>"
proof -
  define s :: real where "s = sqrt (1/2)"
  have s: "2/3 < s" "s < 1" unfolding s_def by (rule sqrt_half_bounds)+
  have p: "(1/2 :: real) powr (1/2) = s"
    by (simp add: s_def powr_half_sqrt)
  have "1 < 1 / s" using s by (simp add: field_simps)
  moreover have "1 / s < 3/2" using s by (simp add: field_simps)
  ultimately have "\<lfloor>1 / s + 1/2\<rfloor> = 1" by linarith
  then have "fst (BitCrusherProcessor_generate this 1 channel \<lparr>bits = 3/2\<rparr>) = s"
    by (simp add: BitCrusherProcessor_generate_def Let_def p)
  moreover have "\<lfloor>(3/2 :: real)\<rfloor> = 1" by linarith
  then have "fst (BitCrusherProcessor_generate this 1 channel \<lparr>bits = 1\<rparr>) = 1"
    by (simp add: BitCrusherProcessor_generate_def Let_def)
  ultimately show ?thesis using s by simp
qed

text \<open>
  C7 as stated, for every pair of values of \<open>bits\<close> in the declared range, is false:
  1 and 1.5 both lie in the range from 1 to 16, and at input 1 the error with 1.5 bits
  exceeds the error with 1 bit.
\<close>

theorem bitcrusher_error_fractional_bits:
  "(1::real) \<le> 1 \<and> (1::real) < 3/2 \<and> (3/2::real) \<le> 16
   \<and> \<not> (\<bar>fst (BitCrusherProcessor_generate (BitCrusherProcessor_new \<lparr>channelCount = None\<rparr>)
                  1 0 \<lparr>bits = 3/2\<rparr>) - 1\<bar>
          \<le> \<bar>fst (BitCrusherProcessor_generate (BitCrusherProcessor_new \<lparr>channelCount = None\<rparr>)
                  1 0 \<lparr>bits = 1\<rparr>) - 1\<bar>)"
  using fractional_bits_not_monotone [of "BitCrusherProcessor_new \<lparr>channelCount = None\<rparr>" 0]
  by simp

section \<open>The delay line and the comb filter\<close>

lemma wf_line_write: "wf_line cap l \<Longrightarrow> wf_line cap (line_write cap l v)"
  by (simp add: wf_line_def line_write_def)

lemma tap_write_0:
  assumes "wf_line cap l"
  shows "tap cap (line_write cap l v) 0 = v"
proof -
  from assms have c: "cursor l < cap" and len: "length (buffer l) = cap"
    by (simp_all add: wf_line_def)
  have "((cursor l + 1) mod cap + cap - 1) mod cap = cursor l"
  proof (cases "cursor l + 1 = cap")
    case True
    then show ?thesis using c by simp
  next
    case False
    with c have "cursor l + 1 < cap" by simp
    then show ?thesis by simp
  qed
  then show ?thesis
    using c len by (simp add: tap_def line_write_def)
qed

lemma tap_write_Suc:
  assumes "wf_line cap l" and "Suc k < cap"
  shows "tap cap (line_write cap l v) (Suc k) = tap cap l k"
proof -
  from assms have c: "cursor l < cap" and len: "length (buffer l) = cap"
    by (simp_all add: wf_line_def)
  define i where "i = (cursor l + cap - 1 - k) mod cap"
  have idx: "((cursor l + 1) mod cap + cap - 1 - Suc k) mod cap = i"
  proof (cases "cursor l + 1 = cap")
    case True
    then have "cursor l + cap - 1 - k = cap + (cap - 2 - k)"
      using assms(2) by simp
    then have "i = (cap - 2 - k) mod cap"
      unfolding i_def by (simp only: mod_add_self1)
    then show ?thesis using True by simp
  next
    case False
    with c have "(cursor l + 1) mod cap = cursor l + 1" by simp
    then show ?thesis by (simp add: i_def)
  qed
  have ne: "i \<noteq> cursor l"
  proof (cases "k < cursor l")
    case True
    then have "cursor l + cap - 1 - k = cap + (cursor l - 1 - k)" by simp
    then have "i = (cursor l - 1 - k) mod cap"
      unfolding i_def by (simp only: mod_add_self1)
    then show ?thesis using True c by simp
  next
    case False
    then have "cursor l + cap - 1 - k < cap" using assms(2) by simp
    then have "i = cursor l + cap - 1 - k" by (simp add: i_def)
    then show ?thesis using assms(2) by simp
  qed
  have "tap cap (line_write cap l v) (Suc k) = (buffer l)[cursor l := v] ! i"
    unfolding tap_def line_write_def by (simp only: channel_line.select_convs idx)
  also have "\<dots> = buffer l ! i"
    using ne by simp
  also have "\<dots> = tap cap l k"
    by (simp only: tap_def i_def)
  finally show ?thesis .
qed

lemma tap_in_buffer: "wf_line cap l \<Longrightarrow> tap cap l k \<in> set (buffer l)"
  by (simp add: wf_line_def tap_def)

lemma line_read_whole:
  assumes "k < cap"
  shows "line_read cap l (real k) = tap cap l k"
proof -
  from assms have "min (max (real k) 0) (real (cap - 1)) = real k"
    by (simp add: min_def max_def)
  then show ?thesis
    by (simp add: line_read_def Let_def)
qed

lemma convex_bound:
  fixes a b f M :: real
  assumes "\<bar>a\<bar> \<le> M" and "\<bar>b\<bar> \<le> M" and "0 \<le> f" and "f \<le> 1"
  shows "\<bar>a + f * (b - a)\<bar> \<le> M"
proof -
  have eq: "a + f * (b - a) = (1 - f) * a + f * b"
    by (simp add: algebra_simps)
  have "\<bar>(1 - f) * a + f * b\<bar> \<le> \<bar>(1 - f) * a\<bar> + \<bar>f * b\<bar>"
    by (rule abs_triangle_ineq)
  also have "\<dots> = (1 - f) * \<bar>a\<bar> + f * \<bar>b\<bar>"
    using assms(3,4) by (simp add: abs_mult)
  also have "\<dots> \<le> (1 - f) * M + f * M"
    using assms by (intro add_mono mult_left_mono) simp_all
  also have "\<dots> = M"
    by (simp add: algebra_simps)
  finally show ?thesis by (simp only: eq)
qed

lemma frac_range:
  fixes dc :: real
  assumes "0 \<le> dc"
  shows "0 \<le> dc - real (nat \<lfloor>dc\<rfloor>)" and "dc - real (nat \<lfloor>dc\<rfloor>) \<le> 1"
proof -
  from assms have "0 \<le> \<lfloor>dc\<rfloor>" by simp
  then have "real (nat \<lfloor>dc\<rfloor>) = of_int \<lfloor>dc\<rfloor>" by simp
  then show "0 \<le> dc - real (nat \<lfloor>dc\<rfloor>)" and "dc - real (nat \<lfloor>dc\<rfloor>) \<le> 1"
    by linarith+
qed

lemma line_read_bounded:
  assumes "wf_line cap l" and "\<forall>v\<in>set (buffer l). \<bar>v\<bar> \<le> M"
  shows "\<bar>line_read cap l d\<bar> \<le> M"
proof -
  define dc where "dc = min (max d 0) (real (cap - 1))"
  have "0 \<le> dc" by (simp add: dc_def)
  then have f: "0 \<le> dc - real (nat \<lfloor>dc\<rfloor>)" "dc - real (nat \<lfloor>dc\<rfloor>) \<le> 1"
    by (rule frac_range)+
  have a: "\<bar>tap cap l (nat \<lfloor>dc\<rfloor>)\<bar> \<le> M"
    using assms tap_in_buffer by blast
  have b: "\<bar>tap cap l (min (nat \<lfloor>dc\<rfloor> + 1) (cap - 1))\<bar> \<le> M"
    using assms tap_in_buffer by blast
  have "line_read cap l d =
      tap cap l (nat \<lfloor>dc\<rfloor>) + (dc - real (nat \<lfloor>dc\<rfloor>)) *
        (tap cap l (min (nat \<lfloor>dc\<rfloor> + 1) (cap - 1)) - tap cap l (nat \<lfloor>dc\<rfloor>))"
    by (simp only: line_read_def Let_def dc_def)
  then show ?thesis
    using convex_bound [OF a b f] by simp
qed

lemma generate_line:
  assumes "channel < length (lines (delayLine this))"
  shows "FeedbackCombFilterProcessor_generate this x channel p =
     Some (line_read (capacity (delayLine this)) (lines (delayLine this) ! channel)
             (delayTime p * sampleRate this),
           this\<lparr>delayLine := (delayLine this)\<lparr>lines := (lines (delayLine this))[channel :=
             line_write (capacity (delayLine this)) (lines (delayLine this) ! channel)
               (x + line_read (capacity (delayLine this)) (lines (delayLine this) ! channel)
                      (delayTime p * sampleRate this) * feedback p)]\<rparr>\<rparr>)"
  using assms
  by (simp add: FeedbackCombFilterProcessor_generate_def DelayLine_get_def DelayLine_push_def)

lemma feedback_bound:
  fixes x y fb B :: real
  assumes "\<bar>x\<bar> \<le> B" and "\<bar>y\<bar> \<le> B / (1 - fb)" and "0 \<le> fb" and "fb < 1"
  shows "\<bar>x + y * fb\<bar> \<le> B / (1 - fb)"
proof -
  have pos: "0 < 1 - fb" using assms(4) by simp
  have "\<bar>x + y * fb\<bar> \<le> \<bar>x\<bar> + \<bar>y * fb\<bar>" by (rule abs_triangle_ineq)
  also have "\<bar>y * fb\<bar> = \<bar>y\<bar> * fb" using assms(3) by (simp add: abs_mult)
  also have "\<bar>x\<bar> + \<bar>y\<bar> * fb \<le> B + B / (1 - fb) * fb"
    using assms by (intro add_mono mult_right_mono) simp_all
  also have "B + B / (1 - fb) * fb = B / (1 - fb)"
    using pos by (simp add: field_simps)
  finally show ?thesis .
qed

lemma line_write_bounded:
  assumes "\<forall>v\<in>set (buffer l). \<bar>v\<bar> \<le> M" and "\<bar>w\<bar> \<le> M"
  shows "\<forall>v\<in>set (buffer (line_write cap l w)). \<bar>v\<bar> \<le> M"
proof
  fix v assume "v \<in> set (buffer (line_write cap l w))"
  then have "v \<in> set ((buffer l)[cursor l := w])" by (simp add: line_write_def)
  then have "v \<in> insert w (set (buffer l))" using set_update_subset_insert by fastforce
  with assms show "\<bar>v\<bar> \<le> M" by auto
qed

lemma comb_step:
  assumes inv: "comb_inv (B / (1 - fb)) n this" and ch: "channel < n"
    and x: "\<bar>x\<bar> \<le> B" and fb: "0 \<le> fb" "fb < 1" and p: "feedback p = fb"
  shows "\<exists>y this'. FeedbackCombFilterProcessor_generate this x channel p = Some (y, this')
           \<and> \<bar>y\<bar> \<le> B / (1 - fb) \<and> comb_inv (B / (1 - fb)) n this'
           \<and> disposed this' = disposed this"
proof -
  define dl where "dl = delayLine this"
  define l where "l = lines dl ! channel"
  define y where "y = line_read (capacity dl) l (delayTime p * sampleRate this)"
  define l' where "l' = line_write (capacity dl) l (x + y * feedback p)"
  define this' where "this' = this\<lparr>delayLine := dl\<lparr>lines := (lines dl)[channel := l']\<rparr>\<rparr>"
  from inv have len: "length (lines dl) = n"
    and wf: "\<forall>l\<in>set (lines dl). wf_line (capacity dl) l"
    and bd: "\<forall>l\<in>set (lines dl). \<forall>v\<in>set (buffer l). \<bar>v\<bar> \<le> B / (1 - fb)"
    by (simp_all add: comb_inv_def wf_delay_def stored_bounded_def numChannels_def dl_def
        list_all_iff)
  from ch len have mem: "l \<in> set (lines dl)" by (simp add: l_def)
  have wfl: "wf_line (capacity dl) l" using wf mem by blast
  have bdl: "\<forall>v\<in>set (buffer l). \<bar>v\<bar> \<le> B / (1 - fb)" using bd mem by blast
  have gen: "FeedbackCombFilterProcessor_generate this x channel p = Some (y, this')"
    using ch len
    by (simp add: generate_line dl_def [symmetric] l_def [symmetric] y_def [symmetric]
        l'_def [symmetric] this'_def [symmetric])
  have ybd: "\<bar>y\<bar> \<le> B / (1 - fb)"
    unfolding y_def using wfl bdl by (rule line_read_bounded)
  have wbd: "\<bar>x + y * feedback p\<bar> \<le> B / (1 - fb)"
    unfolding p using x ybd fb by (rule feedback_bound)
  have wfl': "wf_line (capacity dl) l'"
    unfolding l'_def using wfl by (rule wf_line_write)
  have bdl': "\<forall>v\<in>set (buffer l'). \<bar>v\<bar> \<le> B / (1 - fb)"
    unfolding l'_def using bdl wbd by (rule line_write_bounded)
  have sub: "set ((lines dl)[channel := l']) \<subseteq> insert l' (set (lines dl))"
    by (rule set_update_subset_insert)
  have wf': "\<forall>k\<in>set ((lines dl)[channel := l']). wf_line (capacity dl) k"
    using sub wf wfl' by auto
  have bd': "\<forall>k\<in>set ((lines dl)[channel := l']). \<forall>v\<in>set (buffer k). \<bar>v\<bar> \<le> B / (1 - fb)"
    using sub bd bdl' by auto
  have "comb_inv (B / (1 - fb)) n this'"
    using wf' bd' len
    by (simp add: comb_inv_def wf_delay_def stored_bounded_def numChannels_def this'_def
        list_all_iff)
  moreover have "disposed this' = disposed this" by (simp add: this'_def)
  ultimately show ?thesis using gen ybd by blast
qed

lemma comb_samples:
  assumes "comb_inv (B / (1 - fb)) n this" and "channel < n"
    and "\<forall>x\<in>set xs. \<bar>x\<bar> \<le> B" and "0 \<le> fb" "fb < 1" and "feedback p = fb"
  shows "\<exists>ys this'. generate_samples FeedbackCombFilterProcessor_generate this channel p xs
             = Some (ys, this')
           \<and> (\<forall>y\<in>set ys. \<bar>y\<bar> \<le> B / (1 - fb)) \<and> comb_inv (B / (1 - fb)) n this'
           \<and> disposed this' = disposed this"
  using assms(1,3)
proof (induction xs arbitrary: this)
  case Nil
  then show ?case by simp
next
  case (Cons x xs)
  from Cons.prems have x: "\<bar>x\<bar> \<le> B" by simp
  from comb_step [OF Cons.prems(1) assms(2) x assms(4,5,6)]
  obtain y s1 where g: "FeedbackCombFilterProcessor_generate this x channel p = Some (y, s1)"
    and y: "\<bar>y\<bar> \<le> B / (1 - fb)" and i1: "comb_inv (B / (1 - fb)) n s1"
    and d1: "disposed s1 = disposed this" by blast
  from Cons.prems have "\<forall>x\<in>set xs. \<bar>x\<bar> \<le> B" by simp
  from Cons.IH [OF i1 this]
  obtain ys s2 where r: "generate_samples FeedbackCombFilterProcessor_generate s1 channel p xs
      = Some (ys, s2)"
    and ys: "\<forall>y\<in>set ys. \<bar>y\<bar> \<le> B / (1 - fb)" and i2: "comb_inv (B / (1 - fb)) n s2"
    and d2: "disposed s2 = disposed s1" by blast
  show ?case using g r y ys i2 d1 d2 by simp
qed

lemma comb_channels:
  assumes "comb_inv (B / (1 - fb)) n this" and "channel + length inputs \<le> n"
    and "\<forall>xs\<in>set inputs. \<forall>x\<in>set xs. \<bar>x\<bar> \<le> B" and "0 \<le> fb" "fb < 1" and "feedback p = fb"
  shows "\<exists>yss this'. generate_channels FeedbackCombFilterProcessor_generate this channel p inputs
             = Some (yss, this')
           \<and> (\<forall>ys\<in>set yss. \<forall>y\<in>set ys. \<bar>y\<bar> \<le> B / (1 - fb))
           \<and> comb_inv (B / (1 - fb)) n this' \<and> disposed this' = disposed this"
  using assms(1,2,3)
proof (induction inputs arbitrary: this channel)
  case Nil
  then show ?case by simp
next
  case (Cons xs rest)
  from Cons.prems have ch: "channel < n" and xs: "\<forall>x\<in>set xs. \<bar>x\<bar> \<le> B" by simp_all
  from comb_samples [OF Cons.prems(1) ch xs assms(4,5,6)]
  obtain ys s1 where g: "generate_samples FeedbackCombFilterProcessor_generate this channel p xs
      = Some (ys, s1)"
    and y: "\<forall>y\<in>set ys. \<bar>y\<bar> \<le> B / (1 - fb)" and i1: "comb_inv (B / (1 - fb)) n s1"
    and d1: "disposed s1 = disposed this" by blast
  from Cons.prems have a: "Suc channel + length rest \<le> n"
    and b: "\<forall>xs\<in>set rest. \<forall>x\<in>set xs. \<bar>x\<bar> \<le> B" by simp_all
  from Cons.IH [OF i1 a b]
  obtain yss s2 where r: "generate_channels FeedbackCombFilterProcessor_generate s1 (Suc channel)
      p rest = Some (yss, s2)"
    and ys: "\<forall>ys\<in>set yss. \<forall>y\<in>set ys. \<bar>y\<bar> \<le> B / (1 - fb)"
    and i2: "comb_inv (B / (1 - fb)) n s2"
    and d2: "disposed s2 = disposed s1" by blast
  show ?case using g r y ys i2 d1 d2 by simp
qed

lemma new_numChannels:
  "0 < numChannels (FeedbackCombFilterProcessor_new cap options)"
  by (simp add: numChannels_def FeedbackCombFilterProcessor_new_def DelayLine_new_def Let_def
      split: option.split)

lemma new_comb_inv:
  assumes "0 < cap" and "0 \<le> M"
  shows "comb_inv M (numChannels (FeedbackCombFilterProcessor_new cap options))
           (FeedbackCombFilterProcessor_new cap options)"
  using assms
  by (simp add: comb_inv_def wf_delay_def stored_bounded_def numChannels_def wf_line_def
      FeedbackCombFilterProcessor_new_def DelayLine_new_def Let_def list_all_iff)

lemma onmessage_comb_inv: "comb_inv M n this \<Longrightarrow> comb_inv M n (onmessage this data)"
  by (simp add: comb_inv_def onmessage_def numChannels_def)

lemma silence_bounded:
  assumes "0 \<le> M"
  shows "\<forall>ys\<in>set (silence inputs). \<forall>y\<in>set ys. \<bar>y\<bar> \<le> M"
  using assms by (auto simp: silence_def)

lemma comb_process:
  assumes "comb_inv (B / (1 - fb)) n this" and "length inputs \<le> n"
    and "\<forall>xs\<in>set inputs. \<forall>x\<in>set xs. \<bar>x\<bar> \<le> B" and "0 \<le> fb" "fb < 1" and "feedback p = fb"
    and "0 \<le> B"
  shows "\<exists>yss this'. process FeedbackCombFilterProcessor_generate this inputs p = Some (yss, this')
           \<and> (\<forall>ys\<in>set yss. \<forall>y\<in>set ys. \<bar>y\<bar> \<le> B / (1 - fb))
           \<and> comb_inv (B / (1 - fb)) n this'"
proof (cases "disposed this")
  case True
  have "0 \<le> B / (1 - fb)" using assms(5,7) by simp
  then show ?thesis
    using True assms(1) silence_bounded by (simp add: process_def)
next
  case False
  have "0 + length inputs \<le> n" using assms(2) by simp
  from comb_channels [OF assms(1) this assms(3,4,5,6)] False
  show ?thesis by (auto simp: process_def)
qed

lemma comb_run:
  assumes "comb_inv (B / (1 - fb)) n this" and "\<forall>ev\<in>set evs. block_ok B fb n ev"
    and "0 \<le> fb" "fb < 1" and "0 \<le> B"
  shows "\<exists>outs this'. run_events FeedbackCombFilterProcessor_generate this evs = Some (outs, this')
           \<and> (\<forall>yss\<in>set outs. \<forall>ys\<in>set yss. \<forall>y\<in>set ys. \<bar>y\<bar> \<le> B / (1 - fb))
           \<and> comb_inv (B / (1 - fb)) n this'"
  using assms(1,2)
proof (induction evs arbitrary: this)
  case Nil
  then show ?case by simp
next
  case (Cons ev evs)
  from Cons.prems have rest: "\<forall>ev\<in>set evs. block_ok B fb n ev" by simp
  show ?case
  proof (cases ev)
    case (Message data)
    have "comb_inv (B / (1 - fb)) n (onmessage this data)"
      using Cons.prems(1) by (rule onmessage_comb_inv)
    from Cons.IH [OF this rest] show ?thesis
      using Message by simp
  next
    case (Block inputs p)
    with Cons.prems have ok: "length inputs \<le> n" "feedback p = fb"
      "\<forall>xs\<in>set inputs. \<forall>x\<in>set xs. \<bar>x\<bar> \<le> B"
      by (simp_all add: block_ok_def list_all_iff)
    from comb_process [OF Cons.prems(1) ok(1) ok(3) assms(3,4) ok(2) assms(5)]
    obtain yss s1 where g: "process FeedbackCombFilterProcessor_generate this inputs p
        = Some (yss, s1)"
      and y: "\<forall>ys\<in>set yss. \<forall>y\<in>set ys. \<bar>y\<bar> \<le> B / (1 - fb)"
      and i1: "comb_inv (B / (1 - fb)) n s1" by blast
    from Cons.IH [OF i1 rest]
    obtain outs s2 where r: "run_events FeedbackCombFilterProcessor_generate s1 evs
        = Some (outs, s2)"
      and o: "\<forall>yss\<in>set outs. \<forall>ys\<in>set yss. \<forall>y\<in>set ys. \<bar>y\<bar> \<le> B / (1 - fb)"
      and i2: "comb_inv (B / (1 - fb)) n s2" by blast
    show ?thesis using Block g r y o i2 by simp
  qed
qed

text \<open>
  C1. For every channel that has a buffer, every input sample and all parameter values,
  one call of the comb filter's generate reads the delayed sample from the delay line at
  a delay of \<open>delayTime * sampleRate\<close> samples on that channel, pushes
  \<open>input + delayed * feedback\<close> onto that channel of the delay line as it was when read,
  and returns the delayed sample, not the sum.
\<close>

theorem comb_generate_reads_then_writes:
  assumes "channel < length (lines (delayLine this))"
  shows "\<exists>delayed dl.
           DelayLine_get (delayLine this) channel (delayTime p * sampleRate this) = Some delayed
         \<and> DelayLine_push (delayLine this) channel (input + delayed * feedback p) = Some dl
         \<and> FeedbackCombFilterProcessor_generate this input channel p
             = Some (delayed, this\<lparr>delayLine := dl\<rparr>)"
  using assms
  by (simp add: FeedbackCombFilterProcessor_generate_def DelayLine_get_def DelayLine_push_def)

theorem comb_generate_reads_then_writes_witness:
  "\<exists>delayed dl.
      DelayLine_get (delayLine (FeedbackCombFilterProcessor_new 4 \<lparr>channelCount = None\<rparr>)) 1
        (delayTime \<lparr>delayTime = 1/10, feedback = 1/2\<rparr>
           * sampleRate (FeedbackCombFilterProcessor_new 4 \<lparr>channelCount = None\<rparr>)) = Some delayed
    \<and> DelayLine_push (delayLine (FeedbackCombFilterProcessor_new 4 \<lparr>channelCount = None\<rparr>)) 1
        (1 + delayed * feedback \<lparr>delayTime = 1/10, feedback = 1/2\<rparr>) = Some dl
    \<and> FeedbackCombFilterProcessor_generate (FeedbackCombFilterProcessor_new 4 \<lparr>channelCount = None\<rparr>)
        1 1 \<lparr>delayTime = 1/10, feedback = 1/2\<rparr>
        = Some (delayed, (FeedbackCombFilterProcessor_new 4 \<lparr>channelCount = None\<rparr>)\<lparr>delayLine := dl\<rparr>)"
  using comb_generate_reads_then_writes [of 1 "FeedbackCombFilterProcessor_new 4 \<lparr>channelCount = None\<rparr>"
      "\<lparr>delayTime = 1/10, feedback = 1/2\<rparr>" 1]
  by (simp add: FeedbackCombFilterProcessor_new_def DelayLine_new_def Let_def)

text \<open>
  C3. For every feedback value from 0 to 0.9999 and every run of block requests whose
  input samples are bounded by \<open>B\<close>, every output sample of the feedback comb filter and
  every value stored in its delay line is bounded by \<open>B / (1 - feedback)\<close>, however long
  the run and whatever the delay times; the run never fails.
\<close>

theorem comb_filter_stable:
  assumes "0 \<le> fb" and "fb \<le> 9999/10000" and "0 \<le> B" and "0 < cap"
    and "list_all (block_ok B fb (numChannels (FeedbackCombFilterProcessor_new cap options))) evs"
  shows "\<exists>outs this'.
           run_events FeedbackCombFilterProcessor_generate
             (FeedbackCombFilterProcessor_new cap options) evs = Some (outs, this')
           \<and> list_all (list_all (list_all (\<lambda>y. \<bar>y\<bar> \<le> B / (1 - fb)))) outs
           \<and> stored_bounded (B / (1 - fb)) (delayLine this')"
proof -
  have lt: "fb < 1" using assms(2) by simp
  then have "0 \<le> B / (1 - fb)" using assms(3) by simp
  with assms(4) have "comb_inv (B / (1 - fb))
      (numChannels (FeedbackCombFilterProcessor_new cap options))
      (FeedbackCombFilterProcessor_new cap options)"
    by (rule new_comb_inv)
  moreover have "\<forall>ev\<in>set evs.
      block_ok B fb (numChannels (FeedbackCombFilterProcessor_new cap options)) ev"
    using assms(5) by (simp add: list_all_iff)
  ultimately show ?thesis
    using comb_run [OF _ _ assms(1) lt assms(3)]
    by (fastforce simp: list_all_iff comb_inv_def)
qed

theorem comb_filter_stable_witness:
  "\<exists>outs this'.
     run_events FeedbackCombFilterProcessor_generate
       (FeedbackCombFilterProcessor_new 4 \<lparr>channelCount = None\<rparr>)
       [Block [[1, -1, 1/2], [1]] \<lparr>delayTime = 1/10, feedback = 1/2\<rparr>, Message ''dispose'',
        Block [[1]] \<lparr>delayTime = 0, feedback = 1/2\<rparr>] = Some (outs, this')
     \<and> list_all (list_all (list_all (\<lambda>y. \<bar>y\<bar> \<le> 1 / (1 - 1/2)))) outs
     \<and> stored_bounded (1 / (1 - 1/2)) (delayLine this')"
  using comb_filter_stable [of "1/2" 1 4 "\<lparr>channelCount = None\<rparr>"
      "[Block [[1, -1, 1/2], [1]] \<lparr>delayTime = 1/10, feedback = 1/2\<rparr>, Message ''dispose'',
        Block [[1]] \<lparr>delayTime = 0, feedback = 1/2\<rparr>]"]
  by (simp add: block_ok_def numChannels_def FeedbackCombFilterProcessor_new_def
      DelayLine_new_def Let_def)

section \<open>The impulse response of the comb filter\<close>

lemma comb_generate_value:
  "map_option fst (FeedbackCombFilterProcessor_generate this x channel p)
     = DelayLine_get (delayLine this) channel (delayTime p * sampleRate this)"
  by (simp add: FeedbackCombFilterProcessor_generate_def DelayLine_get_def DelayLine_push_def)

lemma echo_recurrence: "impulse n + comb_echo n * (1/2) = echo_written n"
proof (cases "442 \<le> n")
  case True
  then have m: "n mod 442 = (n - 442) mod 442"
    by (simp add: le_mod_geq)
  from True have d: "n div 442 = Suc ((n - 442) div 442)"
    by (simp add: le_div_geq)
  from True have "impulse n = 0" by (simp add: impulse_def)
  then show ?thesis
    using True by (simp add: comb_echo_def echo_written_def m d)
next
  case False
  then show ?thesis
    by (cases "n = 0") (simp_all add: comb_echo_def echo_written_def impulse_def)
qed

lemma echo_step:
  assumes "echo_inv cap n l" and "442 \<le> cap"
  shows "line_read cap l 441 = comb_echo n"
    and "echo_inv cap (Suc n) (line_write cap l (impulse n + comb_echo n * (1/2)))"
proof -
  from assms(1) have wf: "wf_line cap l"
    and taps: "\<And>k. k < cap \<Longrightarrow> tap cap l k = (if k < n then echo_written (n - 1 - k) else 0)"
    by (simp_all add: echo_inv_def)
  have lt: "(441::nat) < cap" using assms(2) by simp
  have "line_read cap l (real (441::nat)) = tap cap l 441"
    using lt by (rule line_read_whole)
  also have "\<dots> = (if 441 < n then echo_written (n - 1 - 441) else 0)"
    using lt by (rule taps)
  also have "\<dots> = comb_echo n"
    by (auto simp: comb_echo_def)
  finally show "line_read cap l 441 = comb_echo n" by simp
  have w: "impulse n + comb_echo n * (1/2) = echo_written n" by (rule echo_recurrence)
  have "tap cap (line_write cap l (echo_written n)) k
      = (if k < Suc n then echo_written (Suc n - 1 - k) else 0)" if "k < cap" for k
  proof (cases k)
    case 0
    then show ?thesis using wf by (simp add: tap_write_0)
  next
    case (Suc j)
    with that have "j < cap" by simp
    then show ?thesis
      using Suc that wf by (simp add: tap_write_Suc taps)
  qed
  then have "echo_inv cap (Suc n) (line_write cap l (echo_written n))"
    using wf by (simp add: echo_inv_def wf_line_write)
  then show "echo_inv cap (Suc n) (line_write cap l (impulse n + comb_echo n * (1/2)))"
    by (simp only: w)
qed

lemma impulse_generate:
  assumes "impulse_state cap n this" and "442 \<le> cap"
  shows "\<exists>this'. FeedbackCombFilterProcessor_generate this (impulse n) 0
            \<lparr>delayTime = 1/100, feedback = 1/2\<rparr> = Some (comb_echo n, this')
          \<and> impulse_state cap (Suc n) this'"
proof -
  from assms(1) have sr: "sampleRate this = 44100" and c: "capacity (delayLine this) = cap"
    and len: "0 < length (lines (delayLine this))"
    and inv: "echo_inv cap n (lines (delayLine this) ! 0)"
    by (simp_all add: impulse_state_def)
  note st = echo_step [OF inv assms(2)]
  show ?thesis
    using len st by (simp add: generate_line sr c impulse_state_def)
qed

lemma impulse_samples:
  assumes "442 \<le> cap"
  shows "impulse_state cap n this \<Longrightarrow>
     \<exists>this'. generate_samples FeedbackCombFilterProcessor_generate this 0
            \<lparr>delayTime = 1/100, feedback = 1/2\<rparr> (map impulse [n..<n + m])
          = Some (map comb_echo [n..<n + m], this')
          \<and> impulse_state cap (n + m) this'"
proof (induction m arbitrary: n this)
  case 0
  then show ?case by simp
next
  case (Suc m)
  from impulse_generate [OF Suc.prems assms]
  obtain s1 where g: "FeedbackCombFilterProcessor_generate this (impulse n) 0
            \<lparr>delayTime = 1/100, feedback = 1/2\<rparr> = Some (comb_echo n, s1)"
    and i1: "impulse_state cap (Suc n) s1" by blast
  from Suc.IH [OF i1]
  obtain s2 where r: "generate_samples FeedbackCombFilterProcessor_generate s1 0
            \<lparr>delayTime = 1/100, feedback = 1/2\<rparr> (map impulse [Suc n..<Suc n + m])
          = Some (map comb_echo [Suc n..<Suc n + m], s2)"
    and i2: "impulse_state cap (Suc n + m) s2" by blast
  have u: "[n..<n + Suc m] = n # [Suc n..<Suc n + m]"
    by (simp add: upt_conv_Cons)
  show ?case
    unfolding u using g r i2 by simp
qed

lemma new_impulse_state:
  assumes "0 < cap"
  shows "impulse_state cap 0 (FeedbackCombFilterProcessor_new cap options)"
  using assms
  by (simp add: impulse_state_def echo_inv_def wf_line_def tap_def
      FeedbackCombFilterProcessor_new_def ToneAudioWorkletProcessor_new_def DelayLine_new_def
      Let_def split: option.split)

lemma impulse_list: "1 # replicate N 0 = map impulse [0..<0 + Suc N]"
proof -
  have "map impulse [Suc 0..<Suc N] = map (\<lambda>i. 0) [Suc 0..<Suc N]"
    by (rule map_cong) (auto simp: impulse_def)
  also have "\<dots> = replicate N 0"
    by (simp add: map_replicate_const)
  finally show ?thesis
    by (simp add: upt_conv_Cons impulse_def del: upt_Suc)
qed

lemma impulse_response:
  assumes "442 \<le> cap"
  shows "\<exists>this'. generate_samples FeedbackCombFilterProcessor_generate
            (FeedbackCombFilterProcessor_new cap options) 0
            \<lparr>delayTime = 1/100, feedback = 1/2\<rparr> (1 # replicate N 0)
          = Some (map comb_echo [0..<Suc N], this')"
proof -
  have "impulse_state cap 0 (FeedbackCombFilterProcessor_new cap options)"
    using assms by (intro new_impulse_state) simp
  from impulse_samples [OF assms this, of "Suc N"] show ?thesis
    by (auto simp only: impulse_list add_0)
qed

lemma comb_echo_early:
  assumes "i \<le> 1326"
  shows "comb_echo i = (if i = 442 then 1 else if i = 884 then 1/2 else if i = 1326 then 1/4 else 0)"
proof -
  consider "i < 442" | "i = 442" | "442 < i \<and> i < 884" | "i = 884" | "884 < i \<and> i < 1326" | "i = 1326"
    using assms by linarith
  then show ?thesis
  proof cases
    case 1
    then show ?thesis by (simp add: comb_echo_def)
  next
    case 2
    then show ?thesis by (simp add: comb_echo_def echo_written_def)
  next
    case 3
    then have "i - 442 < 442" by arith
    then have "(i - 442) mod 442 = i - 442" by (rule mod_less)
    with 3 show ?thesis by (simp add: comb_echo_def echo_written_def)
  next
    case 4
    then show ?thesis by (simp add: comb_echo_def echo_written_def)
  next
    case 5
    then have a: "442 \<le> i - 442" and b: "i - 442 - 442 < 442" by arith+
    from a have "(i - 442) mod 442 = (i - 442 - 442) mod 442"
      by (rule le_mod_geq)
    also have "\<dots> = i - 442 - 442" using b by (rule mod_less)
    finally have "(i - 442) mod 442 = i - 442 - 442" .
    with 5 show ?thesis by (simp add: comb_echo_def echo_written_def)
  next
    case 6
    then show ?thesis by (simp add: comb_echo_def echo_written_def power2_eq_square)
  qed
qed

text \<open>
  The impulse response in the modelled delay line. The constructor fixes the sample rate
  at 44100, so \<open>delayTime = 0.01\<close> asks for a delay of 441 samples; generate reads
  before it pushes and delay 0 is the most recent write, so the sample pushed at step 0 is
  read back at step 442. The one step between 441 and 442 is the delay line's convention,
  which comes from the spec, not from the sources.
\<close>

lemma comb_impulse_echoes:
  assumes "442 \<le> cap"
  shows "\<exists>ys this'.
           generate_samples FeedbackCombFilterProcessor_generate
             (FeedbackCombFilterProcessor_new cap options) 0
             \<lparr>delayTime = 1/100, feedback = 1/2\<rparr> (1 # replicate N 0) = Some (ys, this')
         \<and> length ys = Suc N
         \<and> (\<forall>i. i \<le> N \<and> i \<le> 1326 \<longrightarrow>
               ys ! i = (if i = 442 then 1 else if i = 884 then 1/2
                         else if i = 1326 then 1/4 else 0))"
proof -
  from impulse_response [OF assms, of options N]
  obtain this' where r: "generate_samples FeedbackCombFilterProcessor_generate
             (FeedbackCombFilterProcessor_new cap options) 0
             \<lparr>delayTime = 1/100, feedback = 1/2\<rparr> (1 # replicate N 0)
           = Some (map comb_echo [0..<Suc N], this')" by blast
  have "map comb_echo [0..<Suc N] ! i
      = (if i = 442 then 1 else if i = 884 then 1/2 else if i = 1326 then 1/4 else 0)"
    if "i \<le> N \<and> i \<le> 1326" for i
  proof -
    from that have "i < Suc N - 0" by simp
    then have "map comb_echo [0..<Suc N] ! i = comb_echo (0 + i)"
      by (rule nth_map_upt)
    then show ?thesis using that by (simp add: comb_echo_early)
  qed
  moreover have "length (map comb_echo [0..<Suc N]) = Suc N" by simp
  ultimately show ?thesis using r by blast
qed

lemma comb_impulse_echoes_at_44101:
  "\<exists>ys this'.
     generate_samples FeedbackCombFilterProcessor_generate
       (FeedbackCombFilterProcessor_new 44101 \<lparr>channelCount = None\<rparr>) 0
       \<lparr>delayTime = 1/100, feedback = 1/2\<rparr> (1 # replicate 1326 0) = Some (ys, this')
   \<and> length ys = 1327
   \<and> ys ! 0 = 0 \<and> ys ! 441 = 0 \<and> ys ! 442 = 1 \<and> ys ! 884 = 1/2 \<and> ys ! 1326 = 1/4"
proof -
  have h: "(442::nat) \<le> 44101" by simp
  from comb_impulse_echoes [OF h, of "\<lparr>channelCount = None\<rparr>" 1326]
  obtain ys this' where r: "generate_samples FeedbackCombFilterProcessor_generate
       (FeedbackCombFilterProcessor_new 44101 \<lparr>channelCount = None\<rparr>) 0
       \<lparr>delayTime = 1/100, feedback = 1/2\<rparr> (1 # replicate 1326 0) = Some (ys, this')"
    and len: "length ys = Suc 1326"
    and nth: "\<And>i. i \<le> 1326 \<and> i \<le> 1326 \<Longrightarrow>
               ys ! i = (if i = 442 then 1 else if i = 884 then 1/2
                         else if i = 1326 then 1/4 else 0)"
    by blast
  have "ys ! 0 = 0" "ys ! 441 = 0" "ys ! 442 = 1" "ys ! 884 = 1/2" "ys ! 1326 = 1/4"
    using nth [of 0] nth [of 441] nth [of 442] nth [of 884] nth [of 1326] by simp_all
  with r len show ?thesis by auto
qed

text \<open>
  C2. The claim's scenario runs the comb filter at a sample rate of 48000, where
  \<open>delayTime = 0.01\<close> is 480 samples and the first echo of a unit impulse is 1 at index
  480. The code cannot be run at that rate: the constructor takes no rate and sets the
  field that its comment calls the sample rate to 44100, and generate converts the delay
  with it. For a node built by the constructor, with a delay line of 48001 samples (one
  second at 48000, plus one), generate asks for a delay of 441 samples, not 480, and the
  output at index 480 of the response to a unit impulse on channel 0 is 0.
\<close>

theorem comb_impulse_at_480:
  "sampleRate (FeedbackCombFilterProcessor_new 48001 \<lparr>channelCount = None\<rparr>) = 44100
   \<and> delayTime \<lparr>delayTime = 1/100, feedback = 1/2\<rparr>
       * sampleRate (FeedbackCombFilterProcessor_new 48001 \<lparr>channelCount = None\<rparr>) = 441
   \<and> map_option fst
       (FeedbackCombFilterProcessor_generate
          (FeedbackCombFilterProcessor_new 48001 \<lparr>channelCount = None\<rparr>) 1 0
          \<lparr>delayTime = 1/100, feedback = 1/2\<rparr>)
     = DelayLine_get (delayLine (FeedbackCombFilterProcessor_new 48001 \<lparr>channelCount = None\<rparr>))
         0 441
   \<and> map_option (\<lambda>r. fst r ! 480)
       (generate_samples FeedbackCombFilterProcessor_generate
          (FeedbackCombFilterProcessor_new 48001 \<lparr>channelCount = None\<rparr>) 0
          \<lparr>delayTime = 1/100, feedback = 1/2\<rparr> (1 # replicate 1440 0)) = Some 0"
proof -
  have sr: "sampleRate (FeedbackCombFilterProcessor_new 48001 \<lparr>channelCount = None\<rparr>) = 44100"
    by (simp add: FeedbackCombFilterProcessor_new_def ToneAudioWorkletProcessor_new_def Let_def)
  have d: "delayTime \<lparr>delayTime = 1/100, feedback = 1/2\<rparr>
       * sampleRate (FeedbackCombFilterProcessor_new 48001 \<lparr>channelCount = None\<rparr>) = 441"
    by (simp add: sr)
  have g: "map_option fst
       (FeedbackCombFilterProcessor_generate
          (FeedbackCombFilterProcessor_new 48001 \<lparr>channelCount = None\<rparr>) 1 0
          \<lparr>delayTime = 1/100, feedback = 1/2\<rparr>)
     = DelayLine_get (delayLine (FeedbackCombFilterProcessor_new 48001 \<lparr>channelCount = None\<rparr>))
         0 441"
    by (simp only: comb_generate_value d)
  have h: "(442::nat) \<le> 48001" by simp
  from impulse_response [OF h, of "\<lparr>channelCount = None\<rparr>" 1440]
  obtain this' where r: "generate_samples FeedbackCombFilterProcessor_generate
        (FeedbackCombFilterProcessor_new 48001 \<lparr>channelCount = None\<rparr>) 0
        \<lparr>delayTime = 1/100, feedback = 1/2\<rparr> (1 # replicate 1440 0)
      = Some (map comb_echo [0..<Suc 1440], this')" by blast
  have "(480::nat) < Suc 1440 - 0" by simp
  then have "map comb_echo [0..<Suc 1440] ! 480 = comb_echo (0 + 480)"
    by (rule nth_map_upt)
  also have "\<dots> = 0" by (simp add: comb_echo_early)
  finally have z: "map comb_echo [0..<Suc 1440] ! 480 = 0" .
  have e: "map_option (\<lambda>r. fst r ! 480)
     (generate_samples FeedbackCombFilterProcessor_generate
        (FeedbackCombFilterProcessor_new 48001 \<lparr>channelCount = None\<rparr>) 0
        \<lparr>delayTime = 1/100, feedback = 1/2\<rparr> (1 # replicate 1440 0)) = Some 0"
    unfolding r using z by simp
  show ?thesis
    by (intro conjI sr d g e)
qed

section \<open>Disposal\<close>

lemma onmessage_disposed: "disposed this \<Longrightarrow> onmessage this data = this"
  by (cases this) (simp add: onmessage_def)

lemma disposed_after_dispose: "disposed (onmessage this ''dispose'')"
  by (simp add: onmessage_def)

lemma run_events_disposed:
  "disposed this \<Longrightarrow> run_events gen this evs = Some (silent_outputs evs, this)"
proof (induction evs rule: silent_outputs.induct)
  case 1
  then show ?case by simp
next
  case (2 data evs)
  then show ?case by (simp add: onmessage_disposed)
next
  case (3 inputs parameters evs)
  then show ?case by (simp add: process_def)
qed

lemma silent_outputs_zero:
  "list_all (list_all (list_all (\<lambda>y. y = 0))) (silent_outputs evs)"
  by (induction evs rule: silent_outputs.induct) (simp_all add: silence_def list_all_iff)

text \<open>
  C5. For every processor node, whatever its generate: once the dispose message has been
  received the disposed flag is set; from then on every run of events succeeds, answers
  every block request with silence and leaves the node exactly as it was, so the flag is
  never cleared and nothing is processed; a second dispose message changes nothing.
\<close>

theorem disposed_node_is_inert:
  "disposed (onmessage this ''dispose'')
   \<and> run_events gen (onmessage this ''dispose'') evs
       = Some (silent_outputs evs, onmessage this ''dispose'')
   \<and> list_all (list_all (list_all (\<lambda>y. y = 0))) (silent_outputs evs)
   \<and> onmessage (onmessage this ''dispose'') ''dispose'' = onmessage this ''dispose''"
proof -
  have d: "disposed (onmessage this ''dispose'')" by (rule disposed_after_dispose)
  show ?thesis
    by (intro conjI d run_events_disposed [OF d] onmessage_disposed [OF d] silent_outputs_zero)
qed

section \<open>The sample rate\<close>






section \<open>Freeverb\<close>

text \<open>
  C8. In Freeverb and in Freeverb1 the constructor makes 8 comb filters and connects the
  shared \<open>roomSize\<close> signal to the resonance of each of them, comb filter 0 to 7 in
  order; setting \<open>dampening\<close> assigns the new value to each of the 8 comb filters and
  leaves their delay times as they were.
\<close>

theorem freeverb_shared_controls:
  "length (fv_combFilters (Freeverb_new options)) = 8
   \<and> roomSize_targets (fv_wiring (Freeverb_new options)) = [0, 1, 2, 3, 4, 5, 6, 7]
   \<and> map lcf_dampening (fv_combFilters (Freeverb_set_dampening (Freeverb_new options) d))
       = replicate 8 d
   \<and> map lcf_delayTime (fv_combFilters (Freeverb_set_dampening (Freeverb_new options) d))
       = combFilterTunings
   \<and> Freeverb_get_dampening (Freeverb_set_dampening (Freeverb_new options) d) = Some d
   \<and> length (fv1_combFilters (Freeverb1_new options)) = 8
   \<and> roomSize_targets (fv1_wiring (Freeverb1_new options)) = [0, 1, 2, 3, 4, 5, 6, 7]
   \<and> map lcf_dampening (fv1_combFilters (Freeverb1_set_dampening (Freeverb1_new options) d))
       = replicate 8 d
   \<and> map lcf_delayTime (fv1_combFilters (Freeverb1_set_dampening (Freeverb1_new options) d))
       = combFilterTunings
   \<and> Freeverb1_get_dampening (Freeverb1_set_dampening (Freeverb1_new options) d) = Some d"
  by (simp add: Freeverb_new_def Freeverb1_new_def Freeverb_comb_def Freeverb1_comb_def
      Freeverb_set_dampening_def Freeverb1_set_dampening_def Freeverb_get_dampening_def
      Freeverb1_get_dampening_def combFilterTunings_def allpassFilterFrequencies_def Let_def
      numeral_eq_Suc)

end
